theory Spec2Isabelle
  imports Complex_Main
begin

section \<open>Money\<close>

text \<open>
  \<^verbatim>\<open>app.py\<close> keeps every amount in a Python \<^verbatim>\<open>float\<close> and every column of the
  database as \<^verbatim>\<open>REAL\<close>. The development idealises these as exact rationals: \<open>+\<close>,
  \<open>-\<close>, \<open>*\<close>, \<open>min\<close>, \<open>max\<close>, \<open>abs\<close> and the comparisons are the exact ones, and
  \<^verbatim>\<open>round(x, n)\<close> rounds the exact value to \<open>n\<close> decimals, a tie going to the even
  neighbour (Python rounds the exact value of the float the same way). Binary
  representation error, \<^verbatim>\<open>nan\<close> and \<^verbatim>\<open>inf\<close> are outside the model.
\<close>

definition round_half_even :: "rat \<Rightarrow> int" where
  "round_half_even x =
     (let f = \<lfloor>x\<rfloor>; d = x - of_int f
      in if d < 1 / 2 then f
         else if 1 / 2 < d then f + 1
         else if even f then f else f + 1)"

definition py_round :: "rat \<Rightarrow> nat \<Rightarrow> rat" where
  "py_round x n = of_int (round_half_even (x * 10 ^ n)) / 10 ^ n"

text \<open>An amount with at most two decimals: a whole number of hundredths.\<close>

definition two_decimal :: "rat \<Rightarrow> bool" where
  "two_decimal x = (of_int \<lfloor>x * 100\<rfloor> = x * 100)"

section \<open>Line items and the billing computation of \<^verbatim>\<open>create_bill\<close>\<close>

text \<open>
  An element of \<^verbatim>\<open>items\<close> is a dictionary read with \<^verbatim>\<open>it.get("name")\<close>,
  \<^verbatim>\<open>it.get("qty", 0)\<close> and \<^verbatim>\<open>it.get("price", 0)\<close>: each key may be absent
  (\<open>None\<close>). The values under \<^verbatim>\<open>qty\<close> and \<^verbatim>\<open>price\<close> are numbers, as the annotation
  \<^verbatim>\<open>items: list of {name, qty, price}\<close> says; a value that \<^verbatim>\<open>float()\<close> rejects is
  excluded by the type.
\<close>

record item =
  it_name :: "string option"
  it_qty :: "rat option"
  it_price :: "rat option"

text \<open>\<^verbatim>\<open>float(it.get("qty", 0))\<close> and \<^verbatim>\<open>float(it.get("price", 0))\<close>.\<close>

definition item_qty :: "item \<Rightarrow> rat" where
  "item_qty it = (case it_qty it of None \<Rightarrow> 0 | Some v \<Rightarrow> v)"

definition item_price :: "item \<Rightarrow> rat" where
  "item_price it = (case it_price it of None \<Rightarrow> 0 | Some v \<Rightarrow> v)"

text \<open>An element of \<^verbatim>\<open>lines\<close>: \<^verbatim>\<open>{"item": ..., "qty": q, "price": p, "total": lt}\<close>.\<close>

record line =
  ln_item :: "string option"
  ln_qty :: rat
  ln_price :: rat
  ln_total :: rat

text \<open>The dictionary \<^verbatim>\<open>create_bill\<close> returns as its second component.\<close>

record details =
  d_subtotal :: rat
  d_advance_applied :: rat
  d_amount_paid :: rat
  d_advance_after :: rat
  d_remaining_after :: rat

text \<open>
  Lines 212 to 221: the loop over \<^verbatim>\<open>items\<close>, with the running \<^verbatim>\<open>subtotal\<close> and
  \<^verbatim>\<open>lines\<close> as accumulators. \<^verbatim>\<open>continue\<close> skips the item.
\<close>

fun create_bill_loop :: "item list \<Rightarrow> rat \<Rightarrow> line list \<Rightarrow> rat \<times> line list" where
  "create_bill_loop [] subtotal lines = (subtotal, lines)"
| "create_bill_loop (it # items) subtotal lines =
     (let q = item_qty it;
          p = item_price it
      in if q \<le> 0 \<or> p < 0 then create_bill_loop items subtotal lines
         else
           (let lt = py_round (q * p) 2
            in create_bill_loop items (subtotal + lt)
                 (lines @ [\<lparr>ln_item = it_name it, ln_qty = q, ln_price = p, ln_total = lt\<rparr>])))"

text \<open>
  Lines 223 to 243: the subtotal is rounded, the advance is used first, then the
  payment; what is left over is debt, what is paid in excess is new advance.
\<close>

definition create_bill_reconcile :: "rat \<Rightarrow> rat \<Rightarrow> rat \<Rightarrow> rat \<Rightarrow> details" where
  "create_bill_reconcile adv_before rem_before subtotal0 amount_paid =
     (let subtotal = py_round subtotal0 2;
          advance_applied = min adv_before subtotal;
          after_advance = subtotal - advance_applied;
          payment = max 0 amount_paid;
          after_payment = after_advance - payment;
          (new_remaining, new_advance) =
            (if after_payment > 0
             then (rem_before + after_payment, adv_before - advance_applied)
             else
               (let overpay = \<bar>after_payment\<bar>
                in (rem_before, (adv_before - advance_applied) + overpay)))
      in \<lparr>d_subtotal = subtotal,
          d_advance_applied = advance_applied,
          d_amount_paid = payment,
          d_advance_after = py_round new_advance 2,
          d_remaining_after = py_round new_remaining 2\<rparr>)"

text \<open>
  Lines 212 to 243 together: from the ledger state read before, the items and the
  amount paid to the returned details and the lines to persist.
\<close>

definition create_bill_compute ::
    "rat \<Rightarrow> rat \<Rightarrow> item list \<Rightarrow> rat \<Rightarrow> details \<times> line list" where
  "create_bill_compute adv_before rem_before items amount_paid =
     (let (subtotal, lines) = create_bill_loop items 0 []
      in (create_bill_reconcile adv_before rem_before subtotal amount_paid, lines))"

section \<open>The database\<close>

text \<open>
  The five tables of \<^verbatim>\<open>init_db\<close>, each a list of rows in insertion order, and the
  counters SQLite keeps for the \<^verbatim>\<open>AUTOINCREMENT\<close> keys (the largest key ever given
  out, which \<^verbatim>\<open>DELETE\<close> does not reset; the users table is never written here, so
  its counter is left out). A value of type \<open>db\<close> is the committed content of the
  database file. Timestamps are the ISO strings the caller's clock gives.
\<close>

record user_row =
  u_id :: nat
  u_email :: string
  u_password_hash :: string
  u_salt :: string
  u_created_at :: string

record customer_row =
  c_id :: nat
  c_name :: string
  c_created_at :: string

record ledger_row =
  l_customer_id :: nat
  l_advance :: rat
  l_remaining :: rat

record bill_row =
  b_id :: nat
  b_customer_id :: nat
  b_bill_date :: string
  b_subtotal :: rat
  b_advance_applied :: rat
  b_amount_paid :: rat
  b_remaining_after :: rat
  b_advance_after :: rat

record bill_item_row =
  bi_id :: nat
  bi_bill_id :: nat
  bi_item_name :: string
  bi_quantity :: rat
  bi_unit_price :: rat
  bi_line_total :: rat

record db =
  users :: "user_row list"
  customers :: "customer_row list"
  ledger :: "ledger_row list"
  bills :: "bill_row list"
  bill_items :: "bill_item_row list"
  seq_customers :: nat
  seq_bills :: nat
  seq_bill_items :: nat

text \<open>
  What the code can raise: \<^verbatim>\<open>ValueError\<close> from \<^verbatim>\<open>get_or_create_customer\<close>,
  \<^verbatim>\<open>sqlite3.IntegrityError\<close> when a \<^verbatim>\<open>NOT NULL\<close> column is given \<^verbatim>\<open>None\<close>, and
  \<^verbatim>\<open>sqlite3.OperationalError\<close> when the storage itself fails.
\<close>

datatype error = ValueError string | IntegrityError | OperationalError

text \<open>
  \<^verbatim>\<open>init_db()\<close> on a fresh file, lines 42 to 110: five empty tables. On a file that
  has them it changes nothing (\<^verbatim>\<open>CREATE TABLE IF NOT EXISTS\<close>).
\<close>

definition init_db :: db where
  "init_db =
     \<lparr>users = [], customers = [], ledger = [], bills = [], bill_items = [],
      seq_customers = 0, seq_bills = 0, seq_bill_items = 0\<rparr>"

section \<open>Customer and ledger helpers\<close>

text \<open>
  \<^verbatim>\<open>str.isspace\<close> on one character, for the code points below 256 that a \<open>char\<close>
  holds: tab to carriage return, the four separators 28 to 31, the space, NEL and the
  no-break space. \<^verbatim>\<open>str.strip()\<close> removes such characters at both ends.
\<close>

definition isspace :: "char \<Rightarrow> bool" where
  "isspace c =
     (let n = (of_char c :: nat)
      in (9 \<le> n \<and> n \<le> 13) \<or> (28 \<le> n \<and> n \<le> 32) \<or> n = 133 \<or> n = 160)"

definition strip :: "string \<Rightarrow> string" where
  "strip s = rev (dropWhile isspace (rev (dropWhile isspace s)))"

text \<open>
  \<^verbatim>\<open>get_or_create_customer(name)\<close>, lines 156 to 172. The \<^verbatim>\<open>SELECT\<close> compares names
  byte for byte (SQLite's default collation). The \<^verbatim>\<open>INSERT\<close> runs only when no row has
  the name, so the \<^verbatim>\<open>UNIQUE\<close> constraint cannot fire; \<^verbatim>\<open>INSERT OR IGNORE\<close> into the
  ledger does nothing when the customer id already has a row. Both inserts are committed
  together. \<open>utcnow\<close> is \<^verbatim>\<open>datetime.utcnow().isoformat()\<close>.
\<close>

definition get_or_create_customer :: "string \<Rightarrow> string \<Rightarrow> db \<Rightarrow> error + nat \<times> db" where
  "get_or_create_customer name0 utcnow db =
     (let name = strip name0
      in if name = [] then Inl (ValueError ''Customer name required'')
         else
           (case find (\<lambda>row. c_name row = name) (customers db) of
              Some row \<Rightarrow> Inr (c_id row, db)
            | None \<Rightarrow>
                (let cid = Suc (seq_customers db);
                     db1 = db\<lparr>customers := customers db @
                                [\<lparr>c_id = cid, c_name = name, c_created_at = utcnow\<rparr>],
                              seq_customers := cid\<rparr>;
                     db2 = (if cid \<in> set (map l_customer_id (ledger db1)) then db1
                            else db1\<lparr>ledger := ledger db1 @
                                   [\<lparr>l_customer_id = cid, l_advance = 0, l_remaining = 0\<rparr>]\<rparr>)
                 in Inr (cid, db2))))"

text \<open>\<^verbatim>\<open>get_ledger(customer_id)\<close>, lines 175 to 183: the first matching row, else zeros.\<close>

definition get_ledger :: "nat \<Rightarrow> db \<Rightarrow> rat \<times> rat" where
  "get_ledger customer_id db =
     (case find (\<lambda>row. l_customer_id row = customer_id) (ledger db) of
        Some row \<Rightarrow> (l_advance row, l_remaining row)
      | None \<Rightarrow> (0, 0))"

text \<open>
  \<^verbatim>\<open>update_ledger(customer_id, new_advance, new_remaining)\<close>, lines 186 to 191: one
  \<^verbatim>\<open>UPDATE ... WHERE customer_id=?\<close> with both values rounded, then a commit. There is
  no check of the arguments and no \<^verbatim>\<open>raise\<close>.
\<close>

definition update_ledger :: "nat \<Rightarrow> rat \<Rightarrow> rat \<Rightarrow> db \<Rightarrow> db" where
  "update_ledger customer_id new_advance new_remaining db =
     db\<lparr>ledger :=
          map (\<lambda>row. if l_customer_id row = customer_id
                     then row\<lparr>l_advance := py_round new_advance 2,
                              l_remaining := py_round new_remaining 2\<rparr>
                     else row)
            (ledger db)\<rparr>"

section \<open>Bill creation\<close>

text \<open>
  Lines 253 to 257: one \<^verbatim>\<open>INSERT INTO bill_items\<close> per line. \<^verbatim>\<open>item_name\<close> is
  \<^verbatim>\<open>NOT NULL\<close>, so a line whose \<^verbatim>\<open>"item"\<close> is \<^verbatim>\<open>None\<close> raises. (The loop variable
  \<^verbatim>\<open>ln\<close> is \<open>ln1\<close> here, \<open>ln\<close> being the logarithm.)
\<close>

fun insert_bill_items :: "nat \<Rightarrow> line list \<Rightarrow> db \<Rightarrow> error + db" where
  "insert_bill_items bill_id [] db = Inr db"
| "insert_bill_items bill_id (ln1 # lines) db =
     (case ln_item ln1 of
        None \<Rightarrow> Inl IntegrityError
      | Some item_name \<Rightarrow>
          (let iid = Suc (seq_bill_items db)
           in insert_bill_items bill_id lines
                (db\<lparr>bill_items := bill_items db @
                       [\<lparr>bi_id = iid, bi_bill_id = bill_id, bi_item_name = item_name,
                         bi_quantity = ln_qty ln1, bi_unit_price = ln_price ln1,
                         bi_line_total = ln_total ln1\<rparr>],
                     seq_bill_items := iid\<rparr>)))"

text \<open>
  Lines 245 to 257: the statements of the second connection, up to but not including
  its \<^verbatim>\<open>commit()\<close> of line 259. The result is the content that commit makes durable;
  an exception leaves the connection uncommitted, and the database as it was.
  \<open>now\<close> is \<^verbatim>\<open>datetime.now().isoformat()\<close>.
\<close>

definition insert_bill :: "nat \<Rightarrow> string \<Rightarrow> details \<Rightarrow> line list \<Rightarrow> db \<Rightarrow> error + nat \<times> db" where
  "insert_bill customer_id now d lines db =
     (let bill_id = Suc (seq_bills db);
          db1 = db\<lparr>bills := bills db @
                     [\<lparr>b_id = bill_id, b_customer_id = customer_id, b_bill_date = now,
                       b_subtotal = d_subtotal d, b_advance_applied = d_advance_applied d,
                       b_amount_paid = d_amount_paid d,
                       b_remaining_after = d_remaining_after d,
                       b_advance_after = d_advance_after d\<rparr>],
                   seq_bills := bill_id\<rparr>
      in case insert_bill_items bill_id lines db1 of
           Inl e \<Rightarrow> Inl e
         | Inr db2 \<Rightarrow> Inr (bill_id, db2))"

text \<open>
  The storage can fail under the code: a \<^verbatim>\<open>commit()\<close> raises
  \<^verbatim>\<open>sqlite3.OperationalError\<close> (database locked, disk full) or the process dies there.
  \<^verbatim>\<open>create_bill\<close> has two commits of its own after the customer is resolved: line 259,
  which ends the transaction of the bill and its items, and line 190 inside
  \<^verbatim>\<open>update_ledger\<close>, on another connection. A \<open>fault\<close> names the commit that fails;
  \<open>None\<close> is a run in which the storage does not fail.
\<close>

datatype fault = BillCommitFails | LedgerCommitFails

text \<open>
  \<^verbatim>\<open>create_bill(customer_name, items, amount_paid)\<close>, lines 198 to 276. The result pairs
  what the call returns or raises with the database it leaves behind. The rendered PDF,
  third component of the returned tuple, is not part of the model.
\<close>

definition create_bill ::
    "fault option \<Rightarrow> string \<Rightarrow> item list \<Rightarrow> rat \<Rightarrow> string \<Rightarrow> string \<Rightarrow> db
       \<Rightarrow> (error + nat \<times> details) \<times> db" where
  "create_bill fault customer_name items amount_paid utcnow now db =
     (case get_or_create_customer customer_name utcnow db of
        Inl e \<Rightarrow> (Inl e, db)
      | Inr (customer_id, db1) \<Rightarrow>
          (let (adv_before, rem_before) = get_ledger customer_id db1;
               (d, lines) = create_bill_compute adv_before rem_before items amount_paid
           in case insert_bill customer_id now d lines db1 of
                Inl e \<Rightarrow> (Inl e, db1)
              | Inr (bill_id, db2) \<Rightarrow>
                  if fault = Some BillCommitFails then (Inl OperationalError, db1)
                  else if fault = Some LedgerCommitFails then (Inl OperationalError, db2)
                  else (Inr (bill_id, d),
                        update_ledger customer_id (d_advance_after d) (d_remaining_after d) db2)))"

section \<open>Admin\<close>

text \<open>
  \<^verbatim>\<open>page_admin\<close>, lines 519 to 531: when the button is pressed, four \<^verbatim>\<open>DELETE\<close>
  statements in this order and one commit.
\<close>

definition page_admin :: "bool \<Rightarrow> db \<Rightarrow> db" where
  "page_admin button db =
     (if button
      then
        (let db1 = db\<lparr>bill_items := []\<rparr>;
             db2 = db1\<lparr>bills := []\<rparr>;
             db3 = db2\<lparr>ledger := []\<rparr>;
             db4 = db3\<lparr>customers := []\<rparr>
         in db4)
      else db)"

section \<open>The billing engine as the specification words it\<close>







text \<open>
  The filtering policy in the claim's words: an item survives when its quantity is
  positive and its unit price is not negative, and its line carries the rounded product.
\<close>

definition survives :: "item \<Rightarrow> bool" where
  "survives it = (0 < item_qty it \<and> 0 \<le> item_price it)"

definition line_of :: "item \<Rightarrow> line" where
  "line_of it =
     \<lparr>ln_item = it_name it, ln_qty = item_qty it, ln_price = item_price it,
      ln_total = py_round (item_qty it * item_price it) 2\<rparr>"

section \<open>Predicates on database states\<close>

text \<open>
  The specification's name normalisation, in its words: trimmed, letter case ignored
  (\<^verbatim>\<open>str.lower\<close> on the ASCII letters).
\<close>

definition lower :: "string \<Rightarrow> string" where
  "lower s =
     map (\<lambda>c. let n = (of_char c :: nat)
               in if 65 \<le> n \<and> n \<le> 90 then char_of (n + 32) else c) s"

definition spec_normalize :: "string \<Rightarrow> string" where
  "spec_normalize name = lower (strip name)"

text \<open>
  The customers table as the code keeps it: names pairwise different (the \<^verbatim>\<open>UNIQUE\<close>
  column) and stored trimmed.
\<close>

definition customers_ok :: "db \<Rightarrow> bool" where
  "customers_ok db =
     (distinct (map c_name (customers db)) \<and>
      (\<forall>row \<in> set (customers db). strip (c_name row) = c_name row))"

text \<open>Every customer has a ledger row: the two are inserted in one transaction.\<close>

definition ledger_rows_ok :: "db \<Rightarrow> bool" where
  "ledger_rows_ok db =
     (\<forall>row \<in> set (customers db). c_id row \<in> set (map l_customer_id (ledger db)))"

text \<open>The ledger states of the data model: not negative, stored with two decimals.\<close>

definition ledger_valid :: "db \<Rightarrow> bool" where
  "ledger_valid db =
     (\<forall>row \<in> set (ledger db).
        0 \<le> l_advance row \<and> 0 \<le> l_remaining row \<and>
        two_decimal (l_advance row) \<and> two_decimal (l_remaining row))"

text \<open>
  A row of \<^verbatim>\<open>bill_items\<close> read back as a line, as the re-download of line 494 selects
  it: \<^verbatim>\<open>item_name as item, quantity as qty, unit_price as price, line_total as total\<close>.
\<close>

definition row_as_line :: "bill_item_row \<Rightarrow> line" where
  "row_as_line r =
     \<lparr>ln_item = Some (bi_item_name r), ln_qty = bi_quantity r,
      ln_price = bi_unit_price r, ln_total = bi_line_total r\<rparr>"

text \<open>The row line 247 inserts into \<^verbatim>\<open>bills\<close>.\<close>

definition bill_of :: "nat \<Rightarrow> nat \<Rightarrow> string \<Rightarrow> details \<Rightarrow> bill_row" where
  "bill_of bill_id customer_id now d =
     \<lparr>b_id = bill_id, b_customer_id = customer_id, b_bill_date = now,
      b_subtotal = d_subtotal d, b_advance_applied = d_advance_applied d,
      b_amount_paid = d_amount_paid d, b_remaining_after = d_remaining_after d,
      b_advance_after = d_advance_after d\<rparr>"


text \<open>
  Between two database states: no balance of the ledger changed; at most the zero row
  of a customer created on the way was appended.
\<close>

definition ledger_kept :: "db \<Rightarrow> db \<Rightarrow> bool" where
  "ledger_kept db db' =
     (ledger db' = ledger db \<or>
      (\<exists>cid. ledger db' =
         ledger db @ [\<lparr>l_customer_id = cid, l_advance = 0, l_remaining = 0\<rparr>]))"

section \<open>Rounding lemmas\<close>

lemma round_half_even_of_int: "round_half_even (of_int n) = n"
  by (simp add: round_half_even_def)

lemma round_half_even_nonneg: "0 \<le> x \<Longrightarrow> 0 \<le> round_half_even x"
  by (auto simp: round_half_even_def Let_def)

lemma py_round_nonneg: "0 \<le> x \<Longrightarrow> 0 \<le> py_round x n"
  by (simp add: py_round_def round_half_even_nonneg)

lemma py_round_0: "py_round 0 n = 0"
  using round_half_even_of_int [of 0] by (simp add: py_round_def)


lemma two_decimal_py_round: "two_decimal (py_round x 2)"
  unfolding two_decimal_def py_round_def by simp


lemma two_decimal_0: "two_decimal 0"
  by (simp add: two_decimal_def)






section \<open>The loop and the two branches of the reconciliation\<close>

lemma loop_eq:
  "create_bill_loop items s ls =
     (s + sum_list (map ln_total (map line_of (filter survives items))),
      ls @ map line_of (filter survives items))"
  by (induction items arbitrary: s ls)
     (simp_all add: Let_def survives_def line_of_def not_le not_less)

lemma loop_subtotal_nonneg: "0 \<le> s \<Longrightarrow> 0 \<le> fst (create_bill_loop items s ls)"
  by (induction items arbitrary: s ls) (simp_all add: Let_def py_round_nonneg)

lemma compute_eq:
  "create_bill_compute a r items paid =
     (create_bill_reconcile a r (fst (create_bill_loop items 0 [])) paid,
      map line_of (filter survives items))"
  by (simp add: create_bill_compute_def loop_eq)

lemma reconcile_owes:
  assumes "sub = py_round s 2" "aa = min a sub" "pay = max 0 paid" "ap = sub - aa - pay"
    and "0 < ap"
  shows "create_bill_reconcile a r s paid =
     \<lparr>d_subtotal = sub, d_advance_applied = aa, d_amount_paid = pay,
      d_advance_after = py_round (a - aa) 2, d_remaining_after = py_round (r + ap) 2\<rparr>"
  using assms(5) unfolding assms(1-4) create_bill_reconcile_def Let_def
  by (simp only: if_P case_prod_conv)

lemma reconcile_overpaid:
  assumes "sub = py_round s 2" "aa = min a sub" "pay = max 0 paid" "ap = sub - aa - pay"
    and "\<not> 0 < ap"
  shows "create_bill_reconcile a r s paid =
     \<lparr>d_subtotal = sub, d_advance_applied = aa, d_amount_paid = pay,
      d_advance_after = py_round ((a - aa) + \<bar>ap\<bar>) 2, d_remaining_after = py_round r 2\<rparr>"
  using assms(5) unfolding assms(1-4) create_bill_reconcile_def Let_def
  by (simp only: if_not_P if_False case_prod_conv)

lemma reconcile_subtotal: "d_subtotal (create_bill_reconcile a r s paid) = py_round s 2"
  by (simp add: create_bill_reconcile_def Let_def split: prod.splits)

lemma reconcile_amount_paid: "d_amount_paid (create_bill_reconcile a r s paid) = max 0 paid"
  by (simp add: create_bill_reconcile_def Let_def split: prod.splits)

lemma reconcile_nonneg:
  assumes "0 \<le> a" "0 \<le> r"
  shows "0 \<le> d_advance_after (create_bill_reconcile a r s paid) \<and>
         0 \<le> d_remaining_after (create_bill_reconcile a r s paid)"
proof -
  define sub where "sub = py_round s 2"
  define aa where "aa = min a sub"
  define pay where "pay = max 0 paid"
  define ap where "ap = sub - aa - pay"
  have aa: "0 \<le> a - aa" by (simp add: aa_def)
  show ?thesis
  proof (cases "0 < ap")
    case True
    have "0 \<le> r + ap" using True assms by simp
    then show ?thesis
      using aa by (simp add: reconcile_owes [OF sub_def aa_def pay_def ap_def True] py_round_nonneg)
  next
    case False
    have "0 \<le> (a - aa) + \<bar>ap\<bar>" using aa by simp
    then show ?thesis
      using assms
      by (simp add: reconcile_overpaid [OF sub_def aa_def pay_def ap_def False] py_round_nonneg)
  qed
qed

lemma reconcile_exclusive:
  assumes "a = 0 \<or> r = 0" "r = 0 \<or> max 0 paid \<le> py_round s 2"
    and "0 \<le> py_round s 2"
  shows "d_advance_after (create_bill_reconcile a r s paid) = 0 \<or>
         d_remaining_after (create_bill_reconcile a r s paid) = 0"
proof -
  define sub where "sub = py_round s 2"
  define aa where "aa = min a sub"
  define pay where "pay = max 0 paid"
  define ap where "ap = sub - aa - pay"
  have pay: "0 \<le> pay" by (simp add: pay_def)
  have sub: "0 \<le> sub" using assms by (simp add: sub_def)
  show ?thesis
  proof (cases "0 < ap")
    case True
    then have "aa < sub" using pay by (simp add: ap_def)
    then have "a - aa = 0" by (simp add: aa_def min_def split: if_splits)
    then have "py_round (a - aa) 2 = 0" by (simp add: py_round_0)
    then show ?thesis
      by (simp add: reconcile_owes [OF sub_def aa_def pay_def ap_def True])
  next
    case False
    show ?thesis
    proof (cases "r = 0")
      case True
      then show ?thesis
        by (simp add: reconcile_overpaid [OF sub_def aa_def pay_def ap_def False] py_round_0)
    next
      case r: False
      with assms have a: "a = 0" and p: "pay \<le> sub" by (auto simp: pay_def sub_def)
      have "aa = 0" using a sub by (simp add: aa_def)
      with False p have "ap = 0" by (simp add: ap_def)
      with a \<open>aa = 0\<close> have "py_round ((a - aa) + \<bar>ap\<bar>) 2 = 0" by (simp add: py_round_0)
      then show ?thesis
        by (simp add: reconcile_overpaid [OF sub_def aa_def pay_def ap_def False])
    qed
  qed
qed




section \<open>Trimming and customer lookup\<close>

lemma strip_idem: "strip (strip s) = strip s"
proof -
  define ys where "ys = dropWhile isspace s"
  define zs where "zs = rev (dropWhile isspace (rev ys))"
  have tail_ok: "dropWhile isspace (rev zs) = rev zs"
    by (simp add: zs_def dropWhile_eq_self_iff hd_dropWhile)
  have head_ok: "dropWhile isspace zs = zs"
  proof (cases "zs = []")
    case True
    then show ?thesis by simp
  next
    case False
    then have ne: "dropWhile isspace (rev ys) \<noteq> []" by (simp add: zs_def)
    then have "ys \<noteq> []" by auto
    then have h: "\<not> isspace (hd ys)" unfolding ys_def by (rule hd_dropWhile)
    have "hd ys \<in> set (rev ys)" using \<open>ys \<noteq> []\<close> by simp
    then have "last (dropWhile isspace (rev ys)) = last (rev ys)"
      using h by (rule dropWhile_last)
    then have "hd zs = hd ys"
      using ne \<open>ys \<noteq> []\<close> by (simp add: zs_def hd_rev last_rev)
    with h show ?thesis by (simp add: dropWhile_eq_self_iff)
  qed
  show ?thesis
    unfolding strip_def ys_def [symmetric] zs_def [symmetric] head_ok tail_ok by simp
qed

lemma find_c_name_None:
  "find (\<lambda>row. c_name row = n) rows = None \<longleftrightarrow> n \<notin> set (map c_name rows)"
  by (auto simp: find_None_iff)

lemma find_append_new: "find P xs = None \<Longrightarrow> P x \<Longrightarrow> find P (xs @ [x]) = Some x"
  by (induction xs) (auto split: if_splits)

lemma find_map_other:
  "(\<And>x. P (f x) = P x) \<Longrightarrow> find P (map f xs) = map_option f (find P xs)"
  by (induction xs) auto

lemma get_or_create_found:
  assumes "strip name0 \<noteq> []"
    and "find (\<lambda>row. c_name row = strip name0) (customers db) = Some row"
  shows "get_or_create_customer name0 utcnow db = Inr (c_id row, db)"
  using assms by (simp add: get_or_create_customer_def Let_def)

lemma get_or_create_new:
  assumes "strip name0 \<noteq> []"
    and "find (\<lambda>row. c_name row = strip name0) (customers db) = None"
  shows "\<exists>db1. get_or_create_customer name0 utcnow db = Inr (Suc (seq_customers db), db1) \<and>
     customers db1 = customers db @
       [\<lparr>c_id = Suc (seq_customers db), c_name = strip name0, c_created_at = utcnow\<rparr>]"
  using assms by (simp add: get_or_create_customer_def Let_def)


lemma get_or_create_customer_Inr:
  assumes "get_or_create_customer name0 utcnow db = Inr (cid, db1)"
  shows "users db1 = users db \<and> bills db1 = bills db \<and> bill_items db1 = bill_items db \<and>
     (ledger db1 = ledger db \<or>
      ledger db1 = ledger db @ [\<lparr>l_customer_id = cid, l_advance = 0, l_remaining = 0\<rparr>]) \<and>
     (ledger_rows_ok db \<longrightarrow> cid \<in> set (map l_customer_id (ledger db1)))"
proof (cases "find (\<lambda>row. c_name row = strip name0) (customers db)")
  case None
  with assms show ?thesis
    by (auto simp: get_or_create_customer_def Let_def split: if_splits)
next
  case (Some row)
  then have "row \<in> set (customers db)" by (auto simp: find_Some_iff)
  with assms Some show ?thesis
    by (auto simp: get_or_create_customer_def Let_def ledger_rows_ok_def split: if_splits)
qed

section \<open>Reading and writing the ledger\<close>

lemma update_ledger_get_same:
  assumes "customer_id \<in> set (map l_customer_id (ledger db))"
  shows "get_ledger customer_id (update_ledger customer_id a r db) =
     (py_round a 2, py_round r 2)"
proof -
  let ?f = "\<lambda>row. if l_customer_id row = customer_id
      then row\<lparr>l_advance := py_round a 2, l_remaining := py_round r 2\<rparr> else row"
  have "find (\<lambda>row. l_customer_id row = customer_id) (map ?f (ledger db)) =
        map_option ?f (find (\<lambda>row. l_customer_id row = customer_id) (ledger db))"
    by (rule find_map_other) simp
  moreover obtain row
    where "find (\<lambda>row. l_customer_id row = customer_id) (ledger db) = Some row"
      and "l_customer_id row = customer_id"
    using assms by (cases "find (\<lambda>row. l_customer_id row = customer_id) (ledger db)")
      (auto simp: find_None_iff dest: find_Some_iff [THEN iffD1])
  ultimately show ?thesis
    by (simp add: get_ledger_def update_ledger_def)
qed

lemma update_ledger_get_other:
  assumes "other \<noteq> customer_id"
  shows "get_ledger other (update_ledger customer_id a r db) = get_ledger other db"
proof -
  let ?f = "\<lambda>row. if l_customer_id row = customer_id
      then row\<lparr>l_advance := py_round a 2, l_remaining := py_round r 2\<rparr> else row"
  have f: "find (\<lambda>row. l_customer_id row = other) (map ?f (ledger db)) =
        map_option ?f (find (\<lambda>row. l_customer_id row = other) (ledger db))"
    by (rule find_map_other) simp
  show ?thesis
  proof (cases "find (\<lambda>row. l_customer_id row = other) (ledger db)")
    case None
    with f show ?thesis by (simp add: get_ledger_def update_ledger_def)
  next
    case (Some row)
    then have "l_customer_id row = other" by (auto simp: find_Some_iff)
    with f Some assms show ?thesis by (simp add: get_ledger_def update_ledger_def)
  qed
qed

lemma get_ledger_valid:
  assumes "ledger_valid db"
  shows "0 \<le> fst (get_ledger cid db) \<and> 0 \<le> snd (get_ledger cid db) \<and>
     two_decimal (fst (get_ledger cid db)) \<and> two_decimal (snd (get_ledger cid db))"
proof (cases "find (\<lambda>row. l_customer_id row = cid) (ledger db)")
  case None
  then show ?thesis by (simp add: get_ledger_def two_decimal_0)
next
  case (Some row)
  then have "row \<in> set (ledger db)" by (auto simp: find_Some_iff)
  with assms Some show ?thesis by (simp add: get_ledger_def ledger_valid_def)
qed

lemma update_ledger_valid:
  assumes "ledger_valid db" and "0 \<le> a" and "0 \<le> r"
  shows "ledger_valid (update_ledger cid a r db)"
  using assms
  by (auto simp: ledger_valid_def update_ledger_def py_round_nonneg two_decimal_py_round)

lemma ledger_kept_valid:
  assumes "ledger_valid db" and "ledger_kept db db'"
  shows "ledger_valid db'"
  using assms by (auto simp: ledger_valid_def ledger_kept_def two_decimal_0)

lemma ledger_valid_init_db: "ledger_valid init_db"
  by (simp add: ledger_valid_def init_db_def)

section \<open>The transaction of the bill and its items\<close>

lemma insert_bill_items_Inr:
  "insert_bill_items bill_id lines db = Inr db' \<Longrightarrow>
   \<exists>rows. bill_items db' = bill_items db @ rows \<and> map row_as_line rows = lines \<and>
     (\<forall>r \<in> set rows. bi_bill_id r = bill_id) \<and>
     users db' = users db \<and> customers db' = customers db \<and> ledger db' = ledger db \<and>
     bills db' = bills db \<and> seq_customers db' = seq_customers db \<and>
     seq_bills db' = seq_bills db"
proof (induction lines arbitrary: db)
  case Nil
  then show ?case by simp
next
  case (Cons ln1 lines)
  from Cons.prems obtain item_name where n: "ln_item ln1 = Some item_name"
    by (cases "ln_item ln1") simp_all
  define r1 where "r1 = \<lparr>bi_id = Suc (seq_bill_items db), bi_bill_id = bill_id,
     bi_item_name = item_name, bi_quantity = ln_qty ln1, bi_unit_price = ln_price ln1,
     bi_line_total = ln_total ln1\<rparr>"
  define db1 where "db1 = db\<lparr>bill_items := bill_items db @ [r1],
     seq_bill_items := Suc (seq_bill_items db)\<rparr>"
  have "insert_bill_items bill_id lines db1 = Inr db'"
    using Cons.prems n by (simp add: Let_def db1_def r1_def)
  from Cons.IH [OF this] obtain rows where
    rows: "bill_items db' = bill_items db1 @ rows" "map row_as_line rows = lines"
      "\<forall>r \<in> set rows. bi_bill_id r = bill_id"
    and rest: "users db' = users db1" "customers db' = customers db1"
      "ledger db' = ledger db1" "bills db' = bills db1"
      "seq_customers db' = seq_customers db1" "seq_bills db' = seq_bills db1"
    by blast
  have "row_as_line r1 = ln1" by (simp add: row_as_line_def r1_def n [symmetric])
  with rows rest show ?case
    by (intro exI [of _ "r1 # rows"]) (simp add: db1_def r1_def)
qed



lemma insert_bill_Inr:
  assumes "insert_bill customer_id now d lines db = Inr (bill_id, db')"
  shows "\<exists>rows. bills db' = bills db @ [bill_of bill_id customer_id now d] \<and>
     bill_items db' = bill_items db @ rows \<and> map row_as_line rows = lines \<and>
     (\<forall>r \<in> set rows. bi_bill_id r = bill_id) \<and>
     users db' = users db \<and> customers db' = customers db \<and> ledger db' = ledger db"
proof -
  define db1 where
    "db1 = db\<lparr>bills := bills db @ [bill_of (Suc (seq_bills db)) customer_id now d],
       seq_bills := Suc (seq_bills db)\<rparr>"
  from assms have b: "bill_id = Suc (seq_bills db)"
    and i: "insert_bill_items bill_id lines db1 = Inr db'"
    by (auto simp: insert_bill_def Let_def db1_def bill_of_def split: sum.splits)
  from insert_bill_items_Inr [OF i] show ?thesis
    by (auto simp: db1_def b)
qed



section \<open>The three ways \<^verbatim>\<open>create_bill\<close> can run\<close>

lemma create_bill_no_customer:
  "get_or_create_customer customer_name utcnow db = Inl e \<Longrightarrow>
   create_bill fault customer_name items amount_paid utcnow now db = (Inl e, db)"
  by (simp add: create_bill_def)

lemma create_bill_no_bill:
  assumes "get_or_create_customer customer_name utcnow db = Inr (cid, db1)"
    and "create_bill_compute (fst (get_ledger cid db1)) (snd (get_ledger cid db1))
           items amount_paid = (d, lines)"
    and "insert_bill cid now d lines db1 = Inl e"
  shows "create_bill fault customer_name items amount_paid utcnow now db = (Inl e, db1)"
  using assms by (simp add: create_bill_def case_prod_beta)

lemma create_bill_inserted:
  assumes "get_or_create_customer customer_name utcnow db = Inr (cid, db1)"
    and "create_bill_compute (fst (get_ledger cid db1)) (snd (get_ledger cid db1))
           items amount_paid = (d, lines)"
    and "insert_bill cid now d lines db1 = Inr (bill_id, db2)"
  shows "create_bill fault customer_name items amount_paid utcnow now db =
     (if fault = Some BillCommitFails then (Inl OperationalError, db1)
      else if fault = Some LedgerCommitFails then (Inl OperationalError, db2)
      else (Inr (bill_id, d),
            update_ledger cid (d_advance_after d) (d_remaining_after d) db2))"
  using assms by (simp add: create_bill_def case_prod_beta)

text \<open>
  Every run of \<^verbatim>\<open>create_bill\<close>, failed or not, leaves a ledger of the data model
  behind when it started from one: the states it reads are not negative and have two
  decimals.
\<close>

lemma create_bill_ledger_valid:
  assumes "ledger_valid db"
  shows "ledger_valid (snd (create_bill fault customer_name items amount_paid utcnow now db))"
proof (cases "get_or_create_customer customer_name utcnow db")
  case (Inl e)
  then show ?thesis using assms by (simp add: create_bill_no_customer [OF Inl])
next
  case (Inr p)
  obtain cid db1 where g: "get_or_create_customer customer_name utcnow db = Inr (cid, db1)"
    using Inr by (cases p) simp
  have "ledger_kept db db1"
    using get_or_create_customer_Inr [OF g] by (auto simp: ledger_kept_def)
  with assms have v1: "ledger_valid db1" by (rule ledger_kept_valid)
  obtain d lines where c: "create_bill_compute (fst (get_ledger cid db1))
       (snd (get_ledger cid db1)) items amount_paid = (d, lines)"
    by (cases "create_bill_compute (fst (get_ledger cid db1))
       (snd (get_ledger cid db1)) items amount_paid") simp
  show ?thesis
  proof (cases "insert_bill cid now d lines db1")
    case (Inl e)
    then show ?thesis using v1 by (simp add: create_bill_no_bill [OF g c Inl])
  next
    case (Inr q)
    obtain bill_id db2 where i: "insert_bill cid now d lines db1 = Inr (bill_id, db2)"
      using Inr by (cases q) simp
    from insert_bill_Inr [OF i] have "ledger db2 = ledger db1" by blast
    with v1 have v2: "ledger_valid db2" by (simp add: ledger_valid_def)
    have d: "d = create_bill_reconcile (fst (get_ledger cid db1)) (snd (get_ledger cid db1))
        (fst (create_bill_loop items 0 [])) amount_paid"
      using c by (simp add: compute_eq)
    have "0 \<le> d_advance_after d \<and> 0 \<le> d_remaining_after d"
      unfolding d using get_ledger_valid [OF v1, of cid] by (intro reconcile_nonneg) simp_all
    then have "ledger_valid (update_ledger cid (d_advance_after d) (d_remaining_after d) db2)"
      using v2 by (intro update_ledger_valid) simp_all
    then show ?thesis
      using v1 v2 by (simp add: create_bill_inserted [OF g c i])
  qed
qed

section \<open>What every state the application reaches satisfies\<close>

text \<open>
  The fresh database has trimmed, pairwise different customer names and a ledger row
  for every customer, and \<^verbatim>\<open>get_or_create_customer\<close>, \<^verbatim>\<open>update_ledger\<close>, the
  insertion of a bill, every run of \<^verbatim>\<open>create_bill\<close> and the wipe keep it so.
\<close>

lemma get_or_create_customer_ok:
  assumes "get_or_create_customer name0 utcnow db = Inr (cid, db1)"
  shows "customers_ok db \<Longrightarrow> customers_ok db1"
    and "ledger_rows_ok db \<Longrightarrow> ledger_rows_ok db1"
proof -
  show "customers_ok db1" if ok: "customers_ok db"
  proof (cases "find (\<lambda>row. c_name row = strip name0) (customers db)")
    case (Some row)
    with assms ok show ?thesis
      by (auto simp: get_or_create_customer_def Let_def split: if_splits)
  next
    case None
    then have "strip name0 \<notin> set (map c_name (customers db))"
      by (simp add: find_c_name_None)
    with assms ok None show ?thesis
      by (auto simp: get_or_create_customer_def Let_def customers_ok_def strip_idem
          split: if_splits)
  qed
  show "ledger_rows_ok db1" if ok: "ledger_rows_ok db"
  proof (cases "find (\<lambda>row. c_name row = strip name0) (customers db)")
    case (Some row)
    with assms ok show ?thesis
      by (auto simp: get_or_create_customer_def Let_def split: if_splits)
  next
    case None
    with assms ok show ?thesis
      by (auto simp: get_or_create_customer_def Let_def ledger_rows_ok_def split: if_splits)
  qed
qed

lemma update_ledger_ids:
  "map l_customer_id (ledger (update_ledger cid a r db)) = map l_customer_id (ledger db)"
  by (simp add: update_ledger_def o_def)

lemma update_ledger_ok:
  "customers_ok db \<Longrightarrow> customers_ok (update_ledger cid a r db)"
  "ledger_rows_ok db \<Longrightarrow> ledger_rows_ok (update_ledger cid a r db)"
  unfolding customers_ok_def ledger_rows_ok_def update_ledger_ids
  by (simp_all add: update_ledger_def)

lemma insert_bill_ok:
  assumes "insert_bill cid now d lines db = Inr (bill_id, db')"
  shows "customers_ok db \<Longrightarrow> customers_ok db'"
    and "ledger_rows_ok db \<Longrightarrow> ledger_rows_ok db'"
  using insert_bill_Inr [OF assms] by (auto simp: customers_ok_def ledger_rows_ok_def)

lemma create_bill_rows_ok:
  assumes "customers_ok db" and "ledger_rows_ok db"
  shows "customers_ok (snd (create_bill fault customer_name items amount_paid utcnow now db)) \<and>
         ledger_rows_ok (snd (create_bill fault customer_name items amount_paid utcnow now db))"
proof (cases "get_or_create_customer customer_name utcnow db")
  case (Inl e)
  then show ?thesis using assms by (simp add: create_bill_no_customer [OF Inl])
next
  case (Inr p)
  obtain cid db1 where g: "get_or_create_customer customer_name utcnow db = Inr (cid, db1)"
    using Inr by (cases p) simp
  have v1: "customers_ok db1" "ledger_rows_ok db1"
    using get_or_create_customer_ok [OF g] assms by simp_all
  obtain d lines where c: "create_bill_compute (fst (get_ledger cid db1))
       (snd (get_ledger cid db1)) items amount_paid = (d, lines)"
    by (cases "create_bill_compute (fst (get_ledger cid db1))
       (snd (get_ledger cid db1)) items amount_paid") simp
  show ?thesis
  proof (cases "insert_bill cid now d lines db1")
    case (Inl e)
    then show ?thesis using v1 by (simp add: create_bill_no_bill [OF g c Inl])
  next
    case (Inr q)
    obtain bill_id db2 where i: "insert_bill cid now d lines db1 = Inr (bill_id, db2)"
      using Inr by (cases q) simp
    have v2: "customers_ok db2" "ledger_rows_ok db2"
      using insert_bill_ok [OF i] v1 by simp_all
    then show ?thesis
      using v1 by (simp add: create_bill_inserted [OF g c i] update_ledger_ok)
  qed
qed

lemma page_admin_ok:
  "customers_ok db \<Longrightarrow> customers_ok (page_admin button db)"
  "ledger_rows_ok db \<Longrightarrow> ledger_rows_ok (page_admin button db)"
  "ledger_valid db \<Longrightarrow> ledger_valid (page_admin button db)"
  by (simp_all add: customers_ok_def ledger_rows_ok_def ledger_valid_def page_admin_def)

lemma init_db_ok: "customers_ok init_db" "ledger_rows_ok init_db"
  by (simp_all add: customers_ok_def ledger_rows_ok_def init_db_def)

section \<open>The reconciliation agrees with the specification's algorithm\<close>




section \<open>Signs and mutual exclusion of the new balances\<close>

text \<open>
  Claim C2 as stated fails. A customer who owes 30.00 and holds no advance buys one
  bottle at 30.00 and pays 50.00: the prior state is mutually exclusive and the subtotal
  is positive, yet the excess 20.00 becomes advance while the debt of 30.00 stays.
\<close>

theorem overpayment_with_debt_counterexample:
  "(0::rat) \<le> 0 \<and> (0::rat) \<le> 30 \<and> ((0::rat) = 0 \<or> (30::rat) = 0) \<and>
   0 < d_subtotal (fst (create_bill_compute 0 30
        [\<lparr>it_name = Some ''6LTR BOTTLE'', it_qty = Some 1, it_price = Some 30\<rparr>] 50)) \<and>
   d_advance_after (fst (create_bill_compute 0 30
        [\<lparr>it_name = Some ''6LTR BOTTLE'', it_qty = Some 1, it_price = Some 30\<rparr>] 50)) = 20 \<and>
   d_remaining_after (fst (create_bill_compute 0 30
        [\<lparr>it_name = Some ''6LTR BOTTLE'', it_qty = Some 1, it_price = Some 30\<rparr>] 50)) = 30"
  by code_simp

text \<open>
  Claim C2, amended. For a prior advance and a prior remaining debt that are not
  negative, the new advance and the new remaining debt are not negative; and when the
  prior state has at most one of them nonzero, the subtotal is positive, and either no
  debt was owed before or the clamped payment does not exceed the subtotal, at most one
  of the new advance and the new remaining debt is nonzero.
\<close>

theorem new_balances_nonneg_and_exclusive:
  assumes "0 \<le> priorAdvance" and "0 \<le> priorRemaining"
  shows "let d = fst (create_bill_compute priorAdvance priorRemaining items amount_paid) in
     0 \<le> d_advance_after d \<and> 0 \<le> d_remaining_after d \<and>
     ((priorAdvance = 0 \<or> priorRemaining = 0) \<and> 0 < d_subtotal d \<and>
      (priorRemaining = 0 \<or> d_amount_paid d \<le> d_subtotal d)
      \<longrightarrow> d_advance_after d = 0 \<or> d_remaining_after d = 0)"
proof -
  define s where "s = fst (create_bill_loop items 0 [])"
  have "0 \<le> s" unfolding s_def by (rule loop_subtotal_nonneg) simp
  then have sub: "0 \<le> py_round s 2" by (rule py_round_nonneg)
  show ?thesis
    unfolding compute_eq fst_conv s_def [symmetric] Let_def
    using reconcile_nonneg [OF assms, of s amount_paid]
      reconcile_exclusive [of priorAdvance priorRemaining amount_paid s] sub
    by (simp add: reconcile_subtotal reconcile_amount_paid)
qed

text \<open>
  The specification's scenario C, through the theorem: 30.00 owed, a bill of 30.00 paid
  exactly; every hypothesis holds and the advance stays zero.
\<close>

theorem new_balances_nonneg_and_exclusive_witness:
  "d_subtotal (fst (create_bill_compute 0 30
        [\<lparr>it_name = Some ''6LTR BOTTLE'', it_qty = Some 1, it_price = Some 30\<rparr>] 30)) = 30 \<and>
   d_amount_paid (fst (create_bill_compute 0 30
        [\<lparr>it_name = Some ''6LTR BOTTLE'', it_qty = Some 1, it_price = Some 30\<rparr>] 30)) = 30 \<and>
   0 \<le> d_advance_after (fst (create_bill_compute 0 30
        [\<lparr>it_name = Some ''6LTR BOTTLE'', it_qty = Some 1, it_price = Some 30\<rparr>] 30)) \<and>
   0 \<le> d_remaining_after (fst (create_bill_compute 0 30
        [\<lparr>it_name = Some ''6LTR BOTTLE'', it_qty = Some 1, it_price = Some 30\<rparr>] 30)) \<and>
   (d_advance_after (fst (create_bill_compute 0 30
        [\<lparr>it_name = Some ''6LTR BOTTLE'', it_qty = Some 1, it_price = Some 30\<rparr>] 30)) = 0 \<or>
    d_remaining_after (fst (create_bill_compute 0 30
        [\<lparr>it_name = Some ''6LTR BOTTLE'', it_qty = Some 1, it_price = Some 30\<rparr>] 30)) = 0)"
proof -
  have a: "(0::rat) \<le> 0" and r: "(0::rat) \<le> 30" by simp_all
  have s: "d_subtotal (fst (create_bill_compute 0 30
        [\<lparr>it_name = Some ''6LTR BOTTLE'', it_qty = Some 1, it_price = Some 30\<rparr>] 30)) = 30"
    by code_simp
  have p: "d_amount_paid (fst (create_bill_compute 0 30
        [\<lparr>it_name = Some ''6LTR BOTTLE'', it_qty = Some 1, it_price = Some 30\<rparr>] 30)) = 30"
    by code_simp
  show ?thesis
    using new_balances_nonneg_and_exclusive [OF a r, of "[\<lparr>it_name = Some ''6LTR BOTTLE'', it_qty = Some 1, it_price = Some 30\<rparr>]" 30]
    unfolding Let_def s p by simp
qed

section \<open>Conservation of money\<close>



section \<open>The empty bill\<close>



section \<open>Atomicity of bill creation\<close>




section \<open>Customer names\<close>

text \<open>
  Claim C5 as stated fails. \<^verbatim>\<open>get_or_create_customer\<close> trims the name and compares it
  byte for byte; it does not fold letter case. The specification's own pair, ``Ali ''
  and ``ali'', is equal after trimming and lower-casing, and on a fresh database the
  two names become customers 1 and 2.
\<close>

theorem customer_name_case_counterexample:
  "spec_normalize ''Ali '' = spec_normalize ''ali'' \<and>
   get_or_create_customer ''Ali '' ''2024-05-01T09:00:00'' init_db =
     Inr (1, \<lparr>users = [],
      customers = [\<lparr>c_id = 1, c_name = ''Ali'', c_created_at = ''2024-05-01T09:00:00''\<rparr>],
      ledger = [\<lparr>l_customer_id = 1, l_advance = 0, l_remaining = 0\<rparr>],
      bills = [], bill_items = [], seq_customers = 1, seq_bills = 0,
      seq_bill_items = 0\<rparr>) \<and>
   get_or_create_customer ''ali'' ''2024-05-01T09:05:00''
     \<lparr>users = [],
      customers = [\<lparr>c_id = 1, c_name = ''Ali'', c_created_at = ''2024-05-01T09:00:00''\<rparr>],
      ledger = [\<lparr>l_customer_id = 1, l_advance = 0, l_remaining = 0\<rparr>],
      bills = [], bill_items = [], seq_customers = 1, seq_bills = 0,
      seq_bill_items = 0\<rparr> =
     Inr (2, \<lparr>users = [],
      customers = [\<lparr>c_id = 1, c_name = ''Ali'', c_created_at = ''2024-05-01T09:00:00''\<rparr>,
                   \<lparr>c_id = 2, c_name = ''ali'', c_created_at = ''2024-05-01T09:05:00''\<rparr>],
      ledger = [\<lparr>l_customer_id = 1, l_advance = 0, l_remaining = 0\<rparr>,
                \<lparr>l_customer_id = 2, l_advance = 0, l_remaining = 0\<rparr>],
      bills = [], bill_items = [], seq_customers = 2, seq_bills = 0,
      seq_bill_items = 0\<rparr>)"
  by code_simp

text \<open>
  Claim C5, amended. Customer name resolution is whitespace-normalized and
  case-sensitive: for every pair of names that are equal after trimming whitespace (and
  not empty then), \<^verbatim>\<open>get_or_create_customer\<close> resolves both to the same customer id,
  the second call adding nothing; and the customers table keeps its names trimmed and
  pairwise different, so no two customers with the same trimmed name can exist.
\<close>

theorem customer_resolution_by_trimmed_name:
  assumes "strip name1 = strip name2" and "strip name1 \<noteq> []" and "customers_ok db"
  shows "\<exists>cid db1.
     get_or_create_customer name1 t1 db = Inr (cid, db1) \<and>
     get_or_create_customer name2 t2 db1 = Inr (cid, db1) \<and>
     customers_ok db1"
proof (cases "find (\<lambda>row. c_name row = strip name1) (customers db)")
  case (Some row)
  have 1: "get_or_create_customer name1 t1 db = Inr (c_id row, db)"
    using assms(2) Some by (rule get_or_create_found)
  have 2: "get_or_create_customer name2 t2 db = Inr (c_id row, db)"
    using assms(1,2) Some by (intro get_or_create_found) simp_all
  from 1 2 assms(3) show ?thesis by blast
next
  case None
  define new where
    "new = \<lparr>c_id = Suc (seq_customers db), c_name = strip name1, c_created_at = t1\<rparr>"
  obtain db1
    where 1: "get_or_create_customer name1 t1 db = Inr (Suc (seq_customers db), db1)"
      and c: "customers db1 = customers db @ [new]"
    using get_or_create_new [OF assms(2) None, of t1] unfolding new_def by blast
  have "find (\<lambda>row. c_name row = strip name2) (customers db1) = Some new"
    unfolding c using None assms(1) by (intro find_append_new) (simp_all add: new_def)
  then have 2: "get_or_create_customer name2 t2 db1 = Inr (c_id new, db1)"
    using assms(1,2) by (intro get_or_create_found) simp_all
  have "strip name1 \<notin> set (map c_name (customers db))"
    using None by (simp add: find_c_name_None)
  then have 3: "customers_ok db1"
    using assms(3) unfolding customers_ok_def c by (simp add: new_def strip_idem)
  from 1 2 3 show ?thesis by (auto simp: new_def)
qed

text \<open>
  ``Ali '' and `` Ali'' on a fresh database, through the theorem: the first call creates
  customer 1, the second finds it.
\<close>

theorem customer_resolution_by_trimmed_name_witness:
  "strip ''Ali '' = strip '' Ali'' \<and> strip ''Ali '' \<noteq> [] \<and> customers_ok init_db \<and>
   get_or_create_customer ''Ali '' ''2024-05-01T09:00:00'' init_db =
     Inr (1, \<lparr>users = [],
      customers = [\<lparr>c_id = 1, c_name = ''Ali'', c_created_at = ''2024-05-01T09:00:00''\<rparr>],
      ledger = [\<lparr>l_customer_id = 1, l_advance = 0, l_remaining = 0\<rparr>],
      bills = [], bill_items = [], seq_customers = 1, seq_bills = 0,
      seq_bill_items = 0\<rparr>) \<and>
   get_or_create_customer '' Ali'' ''2024-05-01T09:05:00''
     \<lparr>users = [],
      customers = [\<lparr>c_id = 1, c_name = ''Ali'', c_created_at = ''2024-05-01T09:00:00''\<rparr>],
      ledger = [\<lparr>l_customer_id = 1, l_advance = 0, l_remaining = 0\<rparr>],
      bills = [], bill_items = [], seq_customers = 1, seq_bills = 0,
      seq_bill_items = 0\<rparr> =
     Inr (1, \<lparr>users = [],
      customers = [\<lparr>c_id = 1, c_name = ''Ali'', c_created_at = ''2024-05-01T09:00:00''\<rparr>],
      ledger = [\<lparr>l_customer_id = 1, l_advance = 0, l_remaining = 0\<rparr>],
      bills = [], bill_items = [], seq_customers = 1, seq_bills = 0,
      seq_bill_items = 0\<rparr>)"
proof -
  have n: "strip ''Ali '' = strip '' Ali''" by code_simp
  have e: "strip ''Ali '' \<noteq> []" by code_simp
  have ok: "customers_ok init_db" by (simp add: customers_ok_def init_db_def)
  have first: "get_or_create_customer ''Ali '' ''2024-05-01T09:00:00'' init_db =
     Inr (1, \<lparr>users = [],
      customers = [\<lparr>c_id = 1, c_name = ''Ali'', c_created_at = ''2024-05-01T09:00:00''\<rparr>],
      ledger = [\<lparr>l_customer_id = 1, l_advance = 0, l_remaining = 0\<rparr>],
      bills = [], bill_items = [], seq_customers = 1, seq_bills = 0,
      seq_bill_items = 0\<rparr>)"
    by code_simp
  show ?thesis
    using n e ok
      customer_resolution_by_trimmed_name [OF n e ok, of "''2024-05-01T09:00:00''"
        "''2024-05-01T09:05:00''"]
    unfolding first by auto
qed

section \<open>Writing the ledger\<close>

text \<open>
  Claim C6 as stated fails. \<^verbatim>\<open>update_ledger\<close> has no check and no \<^verbatim>\<open>raise\<close>: called
  with the advance \<open>- 5\<close> it stores \<open>- 5\<close>, and the stored state has changed.
\<close>

theorem update_ledger_negative_counterexample:
  "update_ledger 1 (- 5) 0
     \<lparr>users = [],
      customers = [\<lparr>c_id = 1, c_name = ''Ali'', c_created_at = ''2024-05-01T09:00:00''\<rparr>],
      ledger = [\<lparr>l_customer_id = 1, l_advance = 0, l_remaining = 0\<rparr>],
      bills = [], bill_items = [], seq_customers = 1, seq_bills = 0,
      seq_bill_items = 0\<rparr> =
     \<lparr>users = [],
      customers = [\<lparr>c_id = 1, c_name = ''Ali'', c_created_at = ''2024-05-01T09:00:00''\<rparr>],
      ledger = [\<lparr>l_customer_id = 1, l_advance = - 5, l_remaining = 0\<rparr>],
      bills = [], bill_items = [], seq_customers = 1, seq_bills = 0,
      seq_bill_items = 0\<rparr>"
  by code_simp

text \<open>
  Claim C6, amended. Ledger set: for every customer id that has a ledger row,
  \<^verbatim>\<open>update_ledger\<close> rounds both the advance and the remaining argument to 2 decimals
  and stores them, whatever their sign; it validates nothing and raises nothing. The
  rows of other customers, the set of ledger rows and the other four tables are
  unchanged.
\<close>

theorem update_ledger_rounds_and_stores:
  "(customer_id \<in> set (map l_customer_id (ledger db)) \<longrightarrow>
      get_ledger customer_id (update_ledger customer_id new_advance new_remaining db) =
        (py_round new_advance 2, py_round new_remaining 2)) \<and>
   (\<forall>other. other \<noteq> customer_id \<longrightarrow>
      get_ledger other (update_ledger customer_id new_advance new_remaining db) =
        get_ledger other db) \<and>
   map l_customer_id (ledger (update_ledger customer_id new_advance new_remaining db)) =
     map l_customer_id (ledger db) \<and>
   users (update_ledger customer_id new_advance new_remaining db) = users db \<and>
   customers (update_ledger customer_id new_advance new_remaining db) = customers db \<and>
   bills (update_ledger customer_id new_advance new_remaining db) = bills db \<and>
   bill_items (update_ledger customer_id new_advance new_remaining db) = bill_items db"
proof -
  have ids:
    "map l_customer_id (ledger (update_ledger customer_id new_advance new_remaining db)) =
     map l_customer_id (ledger db)"
    by (simp add: update_ledger_def o_def)
  show ?thesis
    using update_ledger_get_same [of customer_id db new_advance new_remaining]
      update_ledger_get_other [of _ customer_id new_advance new_remaining db] ids
    by (simp add: update_ledger_def)
qed

text \<open>
  An instance with a tie and a negative argument, through the theorem: 0.125 is stored
  as 0.12 and \<open>- 0.375\<close> as \<open>- 0.38\<close>.
\<close>

theorem update_ledger_rounds_and_stores_witness:
  "get_ledger 1 (update_ledger 1 (1 / 8) (- 3 / 8)
     \<lparr>users = [],
      customers = [\<lparr>c_id = 1, c_name = ''Ali'', c_created_at = ''2024-05-01T09:00:00''\<rparr>],
      ledger = [\<lparr>l_customer_id = 1, l_advance = 0, l_remaining = 0\<rparr>],
      bills = [], bill_items = [], seq_customers = 1, seq_bills = 0,
      seq_bill_items = 0\<rparr>) = (12 / 100, - 38 / 100)"
proof -
  have r1: "py_round (1 / 8) 2 = 12 / 100" by code_simp
  have r2: "py_round (- 3 / 8) 2 = - 38 / 100" by code_simp
  show ?thesis
    using update_ledger_rounds_and_stores [of 1 "\<lparr>users = [],
      customers = [\<lparr>c_id = 1, c_name = ''Ali'', c_created_at = ''2024-05-01T09:00:00''\<rparr>],
      ledger = [\<lparr>l_customer_id = 1, l_advance = 0, l_remaining = 0\<rparr>],
      bills = [], bill_items = [], seq_customers = 1, seq_bills = 0,
      seq_bill_items = 0\<rparr>" "1 / 8" "- 3 / 8"]
    unfolding r1 r2 by simp
qed

section \<open>Filtering of line items\<close>



section \<open>The admin wipe\<close>

text \<open>
  Claim C9. From any state, pressing ``Delete All Business Data'' leaves zero rows in
  the customers, ledger, bills and bill items tables, and the users table exactly as it
  was.
\<close>

theorem wipe_clears_business_data_keeps_users:
  "customers (page_admin True db) = [] \<and>
   ledger (page_admin True db) = [] \<and>
   bills (page_admin True db) = [] \<and>
   bill_items (page_admin True db) = [] \<and>
   users (page_admin True db) = users db"
  by (simp add: page_admin_def)

end
